theory Spec2Isabelle
  imports Complex_Main "HOL-Library.AList" "HOL-Library.Sublist"
begin

section \<open>JavaScript values and objects\<close>

text \<open>
  The client is a TypeScript class over the Fetch API. The sources hold several revisions
  of it; this theory embeds the latest one, the class \<open>RESTClient\<close> with an injectable
  transport \<open>fetchFn\<close>, a public \<open>send\<close>, and the methods \<open>head\<close>, \<open>options\<close> and
  \<open>connect\<close> with results of their own. Where an earlier revision differs on a property
  proved here, the difference is stated beside the theorem.

  The values the client handles (request bodies, option bags, header bags, parsed
  responses) are JavaScript values. An object is the list of its own enumerable
  properties in insertion order; the keys of a well-formed object are distinct. Numbers
  are the rationals and \<open>NaN\<close>.
  Every \<open>await\<close> of the code is a sequential step of the model.
\<close>

datatype jsval =
    Undefined
  | Null
  | Bool bool
  | Num rat
  | NaN
  | Str string
  | Arr "jsval list"
  | Obj "(string \<times> jsval) list"

type_synonym object = "(string \<times> jsval) list"

text \<open>\<open>if (data)\<close>: the ToBoolean conversion of the language.\<close>

fun truthy :: "jsval \<Rightarrow> bool" where
  "truthy Undefined = False"
| "truthy Null = False"
| "truthy (Bool b) = b"
| "truthy (Num n) = (n \<noteq> 0)"
| "truthy NaN = False"
| "truthy (Str s) = (s \<noteq> [])"
| "truthy (Arr xs) = True"
| "truthy (Obj ps) = True"

text \<open>\<open>o.k\<close> reads a property (\<open>undefined\<close> when it is missing); \<open>o.k = v\<close> writes it.\<close>

definition get_prop :: "object \<Rightarrow> string \<Rightarrow> jsval" where
  "get_prop obj k = (case map_of obj k of None \<Rightarrow> Undefined | Some v \<Rightarrow> v)"

definition set_prop :: "string \<Rightarrow> jsval \<Rightarrow> object \<Rightarrow> object" where
  "set_prop k v obj = AList.update k v obj"

text \<open>\<open>{ ...options }\<close>: a fresh object with the properties of \<open>options\<close>, empty when
  \<open>options\<close> is \<open>undefined\<close>.\<close>

definition spread :: "object option \<Rightarrow> object" where
  "spread options = (case options of None \<Rightarrow> [] | Some obj \<Rightarrow> obj)"

definition asObject :: "jsval \<Rightarrow> object" where
  "asObject v = (case v of Obj ps \<Rightarrow> ps | _ \<Rightarrow> [])"

definition wf_object :: "object \<Rightarrow> bool" where
  "wf_object obj = distinct (map fst obj)"

definition isMapping :: "jsval \<Rightarrow> bool" where
  "isMapping v = (case v of Obj ps \<Rightarrow> True | _ \<Rightarrow> False)"

text \<open>A scalar: a defined primitive value.\<close>

definition isScalar :: "jsval \<Rightarrow> bool" where
  "isScalar v = (case v of Undefined \<Rightarrow> False | Arr xs \<Rightarrow> False | Obj ps \<Rightarrow> False | _ \<Rightarrow> True)"

text \<open>
  Reading along a path of keys, from an object into its nested mappings (\<open>undefined\<close>
  where the path leaves the objects), and the paths that occur in a value: every key of
  the path is a key of the mapping reached so far, and the mappings on the way have
  distinct keys.
\<close>

fun deepGet :: "jsval \<Rightarrow> string list \<Rightarrow> jsval" where
  "deepGet v [] = v"
| "deepGet v (k # p) = deepGet (get_prop (asObject v) k) p"

fun occursIn :: "jsval \<Rightarrow> string list \<Rightarrow> bool" where
  "occursIn v [] = True"
| "occursIn v (k # p) =
     (case v of
        Obj ps \<Rightarrow> wf_object ps \<and> (case map_of ps k of None \<Rightarrow> False | Some w \<Rightarrow> occursIn w p)
      | _ \<Rightarrow> False)"

subsection \<open>deepMerge\<close>

text \<open>
  Modelled from the spec: \<open>deepMerge\<close> is imported from the package \<open>@cross/deepmerge\<close>,
  which is not part of the sources. The specification describes it as an explicit recursive
  merge over nested key/value mappings: scalar fields are overwritten, nested mappings are
  merged key by key, and on a conflict the value of the second argument wins.
\<close>

fun deepMerge :: "jsval \<Rightarrow> jsval \<Rightarrow> jsval"
  and mergeProps :: "object \<Rightarrow> object \<Rightarrow> object" where
  "deepMerge (Obj a) (Obj b) = Obj (mergeProps a b)"
| "deepMerge a b = b"
| "mergeProps a [] = a"
| "mergeProps a ((k, v) # b) =
     mergeProps
       (AList.update k (case map_of a k of None \<Rightarrow> v | Some u \<Rightarrow> deepMerge u v) a) b"

section \<open>The platform\<close>

datatype HTTPMethod = GET | HEAD | POST | PUT | DELETE | CONNECT | OPTIONS | TRACE | PATCH

fun methodName :: "HTTPMethod \<Rightarrow> string" where
  "methodName GET = ''GET''"
| "methodName HEAD = ''HEAD''"
| "methodName POST = ''POST''"
| "methodName PUT = ''PUT''"
| "methodName DELETE = ''DELETE''"
| "methodName CONNECT = ''CONNECT''"
| "methodName OPTIONS = ''OPTIONS''"
| "methodName TRACE = ''TRACE''"
| "methodName PATCH = ''PATCH''"

text \<open>
  A \<open>Response\<close> of the Fetch API: the status code, the header list and the body text.
  \<open>res.ok\<close> is the Fetch predicate "the status is in the range 200 to 299".
\<close>

type_synonym Headers = "(string \<times> string) list"

record Response =
  status :: nat
  headers :: Headers
  body :: string

definition ok :: "Response \<Rightarrow> bool" where
  "ok res = (200 \<le> status res \<and> status res \<le> 299)"

text \<open>\<open>headers.get(name)\<close>: header names are compared without case; the values of all
  entries of that name are joined with a comma and a space; \<open>null\<close> when there is none.\<close>

definition lower :: "char \<Rightarrow> char" where
  "lower c = (let n = (of_char c :: nat) in if 65 \<le> n \<and> n \<le> 90 then char_of (n + 32) else c)"

fun joinWith :: "string \<Rightarrow> string list \<Rightarrow> string" where
  "joinWith sep [] = []"
| "joinWith sep [x] = x"
| "joinWith sep (x # y # ys) = x @ sep @ joinWith sep (y # ys)"

definition Headers_get :: "Headers \<Rightarrow> string \<Rightarrow> string option" where
  "Headers_get hs name =
     (case filter (\<lambda>(k, v). map lower k = map lower name) hs of
        [] \<Rightarrow> None
      | kvs \<Rightarrow> Some (joinWith '', '' (map snd kvs)))"

text \<open>
  The functions of the host and of the package \<open>url-toolkit\<close> that the client calls and the
  sources do not contain are parameters of the model:
  \<^item> \<open>buildAbsoluteURL base relative\<close> resolves a relative reference (\<open>Inl\<close>: it throws);
  \<^item> \<open>JSON_stringify\<close> and \<open>JSON_parse\<close> are the JSON codec of the host (\<open>Inl\<close>: the
    parser throws a \<open>SyntaxError\<close>);
  \<^item> \<open>formEncode\<close> is the percent-encoding of one name or value in a query string;
  \<^item> \<open>fetch url init\<close> is the network call of the host (\<open>Inl\<close>: it rejects, for
    example with an \<open>AbortError\<close>).
\<close>

record platform =
  buildAbsoluteURL :: "string \<Rightarrow> string \<Rightarrow> string + string"
  JSON_stringify :: "jsval \<Rightarrow> string"
  JSON_parse :: "string \<Rightarrow> string + jsval"
  formEncode :: "string \<Rightarrow> string"
  fetch :: "string \<Rightarrow> object \<Rightarrow> string + Response"

text \<open>\<open>URLSearchParams\<close>: the list of name/value pairs in insertion order;
  \<open>toString()\<close> writes \<open>name=value\<close> pairs joined by \<open>&\<close>.\<close>

type_synonym URLSearchParams = "(string \<times> string) list"

definition URLSearchParams_toString :: "platform \<Rightarrow> URLSearchParams \<Rightarrow> string" where
  "URLSearchParams_toString pf ps =
     joinWith ''&'' (map (\<lambda>(k, v). formEncode pf k @ ''='' @ formEncode pf v) ps)"

section \<open>RESTError\<close>

text \<open>
  Every way a call can fail is a value. \<open>RESTError\<close> is the class of the sources; its
  fields \<open>method\<close>, \<open>url\<close> and \<open>response\<close> are the selectors \<open>errMethod\<close>, \<open>errURL\<close>
  and \<open>errResponse\<close>. The other three are the exceptions of the
  platform that the client lets through as they are: \<open>buildAbsoluteURL\<close> throwing, the
  transport rejecting, and \<open>res.json()\<close> failing to parse.
\<close>

datatype error =
    RESTError (errMethod: HTTPMethod) (errURL: string) (errResponse: Response)
  | URLError string
  | FetchError string
  | SyntaxError string

fun is_RESTError :: "error \<Rightarrow> bool" where
  "is_RESTError (RESTError m u res) = True"
| "is_RESTError e = False"

fun showNat :: "nat \<Rightarrow> string" where
  "showNat n =
     (if n < 10 then [char_of (48 + n)] else showNat (n div 10) @ [char_of (48 + n mod 10)])"

declare showNat.simps [simp del]

text \<open>The message the constructor of \<open>RESTError\<close> passes to \<open>Error\<close>.\<close>

definition message :: "HTTPMethod \<Rightarrow> string \<Rightarrow> Response \<Rightarrow> string" where
  "message m u res =
     ''request \"'' @ methodName m @ '' '' @ u @ ''\" respond with status '' @ showNat (status res)"

section \<open>RESTClient\<close>

type_synonym RequestInit = object

type_synonym transport = "string \<Rightarrow> RequestInit \<Rightarrow> string + Response"

record RESTClient =
  fetchFn :: transport
  baseURL :: string
  defaultOptions :: RequestInit

definition new_RESTClient ::
  "platform \<Rightarrow> string option \<Rightarrow> RequestInit option \<Rightarrow> transport option \<Rightarrow> RESTClient" where
  "new_RESTClient pf base defaults f =
     \<lparr> fetchFn = (case f of None \<Rightarrow> fetch pf | Some g \<Rightarrow> g),
       baseURL = (case base of None \<Rightarrow> [] | Some b \<Rightarrow> b),
       defaultOptions = spread defaults \<rparr>"

definition updateOptions :: "RESTClient \<Rightarrow> RequestInit \<Rightarrow> RESTClient" where
  "updateOptions c options =
     c\<lparr>defaultOptions := asObject (deepMerge (Obj (defaultOptions c)) (Obj options))\<rparr>"

definition auth :: "RESTClient \<Rightarrow> string \<Rightarrow> RESTClient" where
  "auth c token =
     (let headers = Obj [(''Authentication'', Str token)];
          opt = [(''headers'', headers)]
      in updateOptions c opt)"

subsection \<open>send\<close>

text \<open>
  The network call and the console are the two effects of a request. Each method returns,
  beside its result, the requests it handed to the transport (URL and options) and the
  diagnostics it wrote to the console.
\<close>

datatype diagnostic = Warn string Response

type_synonym request = "string \<times> RequestInit"

record effects =
  requests :: "request list"
  console :: "diagnostic list"

text \<open>Lines 125 to 127 of \<open>send\<close>: the URL of the request.\<close>

definition requestURL ::
  "platform \<Rightarrow> RESTClient \<Rightarrow> string \<Rightarrow> URLSearchParams option \<Rightarrow> string + string" where
  "requestURL pf c path params =
     (let search = (case params of None \<Rightarrow> [] | Some ps \<Rightarrow> ''?'' @ URLSearchParams_toString pf ps);
          relative = path @ search
      in buildAbsoluteURL pf (baseURL c) relative)"

text \<open>Lines 129 to 137 of \<open>send\<close>: the options of the request.\<close>

definition requestInit ::
  "platform \<Rightarrow> HTTPMethod \<Rightarrow> jsval \<Rightarrow> RequestInit option \<Rightarrow> RequestInit" where
  "requestInit pf m data options =
     (let opt = spread options;
          opt = set_prop ''method'' (Str (methodName m)) opt
      in if truthy data then
           (let headers = Obj [(''Content-Type'', Str ''application/json'')];
                opt = set_prop ''headers'' (deepMerge (get_prop opt ''headers'') headers) opt
            in set_prop ''body'' (Str (JSON_stringify pf data)) opt)
         else opt)"

definition send ::
  "platform \<Rightarrow> RESTClient \<Rightarrow> HTTPMethod \<Rightarrow> string \<Rightarrow> URLSearchParams option \<Rightarrow> jsval \<Rightarrow>
   RequestInit option \<Rightarrow> effects \<times> (error + Response)" where
  "send pf c m path params data options =
     (case requestURL pf c path params of
        Inl e \<Rightarrow> (\<lparr>requests = [], console = []\<rparr>, Inl (URLError e))
      | Inr u \<Rightarrow>
          (let opt = requestInit pf m data options;
               fx = \<lparr>requests = [(u, opt)], console = []\<rparr>
           in case fetchFn c u opt of
                Inl e \<Rightarrow> (fx, Inl (FetchError e))
              | Inr res \<Rightarrow> (fx, if \<not> ok res then Inl (RESTError m u res) else Inr res)))"

subsection \<open>The verb methods\<close>

text \<open>\<open>res.json()\<close>: the body text parsed by the JSON parser of the host.\<close>

definition json :: "platform \<Rightarrow> Response \<Rightarrow> error + jsval" where
  "json pf res = (case JSON_parse pf (body res) of Inl e \<Rightarrow> Inl (SyntaxError e) | Inr v \<Rightarrow> Inr v)"

definition getParsedResponseBody ::
  "platform \<Rightarrow> RESTClient \<Rightarrow> HTTPMethod \<Rightarrow> string \<Rightarrow> URLSearchParams option \<Rightarrow> jsval \<Rightarrow>
   RequestInit option \<Rightarrow> effects \<times> (error + jsval)" where
  "getParsedResponseBody pf c m path params data options =
     (case send pf c m path params data options of
        (fx, Inl e) \<Rightarrow> (fx, Inl e)
      | (fx, Inr res) \<Rightarrow> (fx, json pf res))"

definition get ::
  "platform \<Rightarrow> RESTClient \<Rightarrow> string \<Rightarrow> URLSearchParams option \<Rightarrow> RequestInit option \<Rightarrow>
   effects \<times> (error + jsval)" where
  "get pf c path params options = getParsedResponseBody pf c GET path params Undefined options"

definition head ::
  "platform \<Rightarrow> RESTClient \<Rightarrow> string \<Rightarrow> URLSearchParams option \<Rightarrow> RequestInit option \<Rightarrow>
   effects \<times> (error + Headers)" where
  "head pf c path params options =
     (case send pf c HEAD path params Undefined options of
        (fx, Inl e) \<Rightarrow> (fx, Inl e)
      | (fx, Inr res) \<Rightarrow> (fx, Inr (headers res)))"

definition post ::
  "platform \<Rightarrow> RESTClient \<Rightarrow> string \<Rightarrow> URLSearchParams option \<Rightarrow> jsval \<Rightarrow>
   RequestInit option \<Rightarrow> effects \<times> (error + jsval)" where
  "post pf c path params data options = getParsedResponseBody pf c POST path params data options"

definition put ::
  "platform \<Rightarrow> RESTClient \<Rightarrow> string \<Rightarrow> URLSearchParams option \<Rightarrow> jsval \<Rightarrow>
   RequestInit option \<Rightarrow> effects \<times> (error + jsval)" where
  "put pf c path params data options = getParsedResponseBody pf c PUT path params data options"

definition delete ::
  "platform \<Rightarrow> RESTClient \<Rightarrow> string \<Rightarrow> URLSearchParams option \<Rightarrow> jsval \<Rightarrow>
   RequestInit option \<Rightarrow> effects \<times> (error + jsval)" where
  "delete pf c path params data options =
     getParsedResponseBody pf c DELETE path params data options"

definition patch ::
  "platform \<Rightarrow> RESTClient \<Rightarrow> string \<Rightarrow> URLSearchParams option \<Rightarrow> jsval \<Rightarrow>
   RequestInit option \<Rightarrow> effects \<times> (error + jsval)" where
  "patch pf c path params data options =
     getParsedResponseBody pf c PATCH path params data options"

text \<open>
  Header values are byte strings; the characters below 256 that the class \<open>\s\<close> of a
  regular expression matches are tab, line feed, vertical tab, form feed, carriage return,
  space and the no-break space.
\<close>

definition isSpace :: "char \<Rightarrow> bool" where
  "isSpace ch = (of_char ch \<in> {9, 10, 11, 12, 13, 32, 160 :: nat})"

text \<open>A match of \<open>/\s*,\s*/\<close> at the start of a string: the text after the match.\<close>

definition matchSeparator :: "string \<Rightarrow> string option" where
  "matchSeparator s =
     (case dropWhile isSpace s of
        [] \<Rightarrow> None
      | ch # r \<Rightarrow> if ch = CHR '','' then Some (dropWhile isSpace r) else None)"

text \<open>
  \<open>allow.split(/\s*,\s*/)\<close>, as the language defines \<open>split\<close> for a regular expression:
  scan from the left; at the first position where the separator matches, close the current
  token and go on after the match; at the end of the string, close the last token.
\<close>

function splitLoop :: "string \<Rightarrow> string \<Rightarrow> string list" where
  "splitLoop tok [] = [tok]"
| "splitLoop tok (ch # cs) =
     (case matchSeparator (ch # cs) of
        Some r \<Rightarrow> tok # splitLoop [] r
      | None \<Rightarrow> splitLoop (tok @ [ch]) cs)"
  by pat_completeness auto
termination
proof (relation "measure (\<lambda>(tok, s). length s)")
  show "wf (measure (\<lambda>(tok, s). length s))" by simp
next
  fix tok :: string and ch cs r
  assume "matchSeparator (ch # cs) = Some r"
  then obtain d where d: "dropWhile isSpace (ch # cs) = CHR '','' # d" and r: "r = dropWhile isSpace d"
    by (auto simp: matchSeparator_def split: list.splits if_splits)
  have "length (dropWhile isSpace (ch # cs)) \<le> length (ch # cs)"
    by (rule length_dropWhile_le)
  with d have "length d < length (ch # cs)" by simp
  moreover have "length r \<le> length d" unfolding r by (rule length_dropWhile_le)
  ultimately show "(([], r), (tok, ch # cs)) \<in> measure (\<lambda>(tok, s). length s)" by simp
next
  fix tok :: string and ch cs
  show "((tok @ [ch], cs), (tok, ch # cs)) \<in> measure (\<lambda>(tok, s). length s)" by simp
qed

definition split_allow :: "string \<Rightarrow> string list" where
  "split_allow s = splitLoop [] s"

definition options ::
  "platform \<Rightarrow> RESTClient \<Rightarrow> string \<Rightarrow> URLSearchParams option \<Rightarrow> jsval \<Rightarrow>
   RequestInit option \<Rightarrow> effects \<times> (error + string list)" where
  "options pf c path params data opts =
     (case send pf c OPTIONS path params data opts of
        (fx, Inl e) \<Rightarrow> (fx, Inl e)
      | (fx, Inr res) \<Rightarrow>
          (case Headers_get (headers res) ''Allow'' of
             None \<Rightarrow>
               (fx\<lparr>console := console fx @ [Warn ''response does not have an \"Allow\" header'' res]\<rparr>,
                Inr [])
           | Some allow \<Rightarrow> (fx, Inr (split_allow allow))))"

definition connect ::
  "platform \<Rightarrow> RESTClient \<Rightarrow> string \<Rightarrow> URLSearchParams option \<Rightarrow> RequestInit option \<Rightarrow>
   effects \<times> (error + unit)" where
  "connect pf c path params opts =
     (case send pf c CONNECT path params Undefined opts of
        (fx, Inl e) \<Rightarrow> (fx, Inl e)
      | (fx, Inr res) \<Rightarrow> (fx, Inr ()))"

definition trace ::
  "platform \<Rightarrow> RESTClient \<Rightarrow> string \<Rightarrow> URLSearchParams option \<Rightarrow> RequestInit option \<Rightarrow>
   effects \<times> (error + jsval)" where
  "trace pf c path params opts =
     getParsedResponseBody pf c TRACE path params Undefined opts"

subsection \<open>Calls on a client\<close>

text \<open>
  A call of one of the nine verb methods with its arguments, and what it hands back: parsed
  data, the header collection (\<open>head\<close>), the list of allowed methods (\<open>options\<close>) or
  nothing (\<open>connect\<close>).
\<close>

datatype call =
    Get string "URLSearchParams option" "RequestInit option"
  | Head string "URLSearchParams option" "RequestInit option"
  | Post string "URLSearchParams option" jsval "RequestInit option"
  | Put string "URLSearchParams option" jsval "RequestInit option"
  | Delete string "URLSearchParams option" jsval "RequestInit option"
  | Patch string "URLSearchParams option" jsval "RequestInit option"
  | Options string "URLSearchParams option" jsval "RequestInit option"
  | Connect string "URLSearchParams option" "RequestInit option"
  | Trace string "URLSearchParams option" "RequestInit option"

datatype result = Data jsval | HeaderCollection Headers | AllowList "string list" | NoData

definition returning :: "('a \<Rightarrow> result) \<Rightarrow> effects \<times> (error + 'a) \<Rightarrow> effects \<times> (error + result)" where
  "returning f r = (case r of (fx, Inl e) \<Rightarrow> (fx, Inl e) | (fx, Inr v) \<Rightarrow> (fx, Inr (f v)))"

fun perform :: "platform \<Rightarrow> RESTClient \<Rightarrow> call \<Rightarrow> effects \<times> (error + result)" where
  "perform pf c (Get path params opts) = returning Data (get pf c path params opts)"
| "perform pf c (Head path params opts) = returning HeaderCollection (head pf c path params opts)"
| "perform pf c (Post path params data opts) = returning Data (post pf c path params data opts)"
| "perform pf c (Put path params data opts) = returning Data (put pf c path params data opts)"
| "perform pf c (Delete path params data opts) =
     returning Data (delete pf c path params data opts)"
| "perform pf c (Patch path params data opts) = returning Data (patch pf c path params data opts)"
| "perform pf c (Options path params data opts) =
     returning AllowList (options pf c path params data opts)"
| "perform pf c (Connect path params opts) =
     returning (\<lambda>u. NoData) (connect pf c path params opts)"
| "perform pf c (Trace path params opts) = returning Data (trace pf c path params opts)"

subsection \<open>The client in a store\<close>

text \<open>
  The objects a method works on can be reached by its caller too: the options of a call
  may be the very object stored in \<open>defaultOptions\<close>, or share its \<open>headers\<close> object.
  What the methods write is therefore also modelled over a store. An object is an address;
  the store lists the properties of every object allocated so far; an object literal and
  \<open>{ ...o }\<close> allocate a new object; \<open>o.k = v\<close> updates the properties of the object at
  the address \<open>o\<close>. The option bags hold no arrays.
\<close>

datatype sval = SUndefined | SNull | SBool bool | SNum rat | SNaN | SStr string | SRef nat

type_synonym sobject = "(string \<times> sval) list"

type_synonym store = "sobject list"

definition alloc :: "store \<Rightarrow> sobject \<Rightarrow> store \<times> nat" where
  "alloc h obj = (h @ [obj], length h)"

definition propsOf :: "store \<Rightarrow> nat \<Rightarrow> sobject" where
  "propsOf h a = (if a < length h then h ! a else [])"

definition readProp :: "store \<Rightarrow> nat \<Rightarrow> string \<Rightarrow> sval" where
  "readProp h a k = (case map_of (propsOf h a) k of None \<Rightarrow> SUndefined | Some v \<Rightarrow> v)"

definition writeProp :: "store \<Rightarrow> nat \<Rightarrow> string \<Rightarrow> sval \<Rightarrow> store" where
  "writeProp h a k v = (if a < length h then h[a := AList.update k v (h ! a)] else h)"

text \<open>
  Modelled from the spec: \<open>deepMerge\<close> over the store follows the same policy as
  \<open>deepMerge\<close> above. The merge of two mappings is a new object, and no object that exists
  is written to (the specification: each call computes a fresh merged options value). The
  recursion follows the references of the second argument, which may form a cycle: the
  first argument of \<open>deepMergeS\<close> is the depth of call stack that is left, and \<open>None\<close> is
  the \<open>RangeError\<close> of an exhausted stack.
\<close>

fun deepMergeS :: "nat \<Rightarrow> store \<Rightarrow> sval \<Rightarrow> sval \<Rightarrow> (store \<times> sval) option"
  and mergePropsS :: "nat \<Rightarrow> store \<Rightarrow> sobject \<Rightarrow> sobject \<Rightarrow> (store \<times> sobject) option" where
  "deepMergeS 0 h a b = None"
| "deepMergeS (Suc n) h (SRef x) (SRef y) =
     (case mergePropsS n h (propsOf h x) (propsOf h y) of
        None \<Rightarrow> None
      | Some (h', props) \<Rightarrow> (case alloc h' props of (h'', z) \<Rightarrow> Some (h'', SRef z)))"
| "deepMergeS (Suc n) h a b = Some (h, b)"
| "mergePropsS n h pa [] = Some (h, pa)"
| "mergePropsS n h pa ((k, v) # pb) =
     (case map_of pa k of
        None \<Rightarrow> mergePropsS n h (AList.update k v pa) pb
      | Some u \<Rightarrow>
          (case deepMergeS n h u v of
             None \<Rightarrow> None
           | Some (h', w) \<Rightarrow> mergePropsS n h' (AList.update k w pa) pb))"

text \<open>How a method ends: it returns, it throws one of the errors above, or the stack is
  exhausted.\<close>

datatype 'a outcome = Returned 'a | Thrown error | StackExhausted

text \<open>The transport is handed the URL and the address of the options, and reads the
  store. The state of a run: the store, the fields of the client object, the console and
  the depth of stack available.\<close>

type_synonym transportS = "string \<Rightarrow> store \<Rightarrow> nat \<Rightarrow> string + Response"

record RESTClientS =
  fetchFnS :: transportS
  baseURLS :: string
  defaultOptionsS :: sval

record machine =
  store :: store
  this :: RESTClientS
  consoleS :: "diagnostic list"
  stack :: nat

text \<open>The constructor, \<open>updateOptions\<close> and \<open>auth\<close>, statement by statement.\<close>

definition new_RESTClientS ::
  "transportS \<Rightarrow> store \<Rightarrow> nat \<Rightarrow> string option \<Rightarrow> nat option \<Rightarrow> transportS option \<Rightarrow> machine" where
  "new_RESTClientS fetchS h depth base defaults f =
     (case alloc h (case defaults of None \<Rightarrow> [] | Some a \<Rightarrow> propsOf h a) of
        (h', copy) \<Rightarrow>
          \<lparr> store = h',
            this = \<lparr> fetchFnS = (case f of None \<Rightarrow> fetchS | Some g \<Rightarrow> g),
                     baseURLS = (case base of None \<Rightarrow> [] | Some b \<Rightarrow> b),
                     defaultOptionsS = SRef copy \<rparr>,
            consoleS = [],
            stack = depth \<rparr>)"

definition updateOptionsS :: "machine \<Rightarrow> nat \<Rightarrow> machine \<times> unit outcome" where
  "updateOptionsS st opts =
     (case deepMergeS (stack st) (store st) (defaultOptionsS (this st)) (SRef opts) of
        None \<Rightarrow> (st, StackExhausted)
      | Some (h, merged) \<Rightarrow>
          (st\<lparr>store := h, this := (this st)\<lparr>defaultOptionsS := merged\<rparr>\<rparr>, Returned ()))"

definition authS :: "machine \<Rightarrow> string \<Rightarrow> machine \<times> unit outcome" where
  "authS st token =
     (case alloc (store st) [(''Authentication'', SStr token)] of
        (h1, hdrs) \<Rightarrow>
          (case alloc h1 [(''headers'', SRef hdrs)] of
             (h2, opt) \<Rightarrow> updateOptionsS (st\<lparr>store := h2\<rparr>) opt))"

text \<open>\<open>send\<close>, statement by statement: the URL, the copy \<open>{ ...options }\<close>, the assignment
  of \<open>method\<close>, and under \<open>if (data)\<close> the object literal for the header, the merge, and
  the assignments of \<open>headers\<close> and \<open>body\<close>.\<close>

definition sendS ::
  "platform \<Rightarrow> machine \<Rightarrow> HTTPMethod \<Rightarrow> string \<Rightarrow> URLSearchParams option \<Rightarrow> jsval \<Rightarrow>
   nat option \<Rightarrow> machine \<times> Response outcome" where
  "sendS pf st m path params data opts =
     (let search = (case params of None \<Rightarrow> [] | Some ps \<Rightarrow> ''?'' @ URLSearchParams_toString pf ps);
          relative = path @ search
      in case buildAbsoluteURL pf (baseURLS (this st)) relative of
           Inl e \<Rightarrow> (st, Thrown (URLError e))
         | Inr u \<Rightarrow>
             (case alloc (store st) (case opts of None \<Rightarrow> [] | Some a \<Rightarrow> propsOf (store st) a) of
                (h1, opt) \<Rightarrow>
                  (let h2 = writeProp h1 opt ''method'' (SStr (methodName m));
                       built =
                         (if truthy data then
                            (case alloc h2 [(''Content-Type'', SStr ''application/json'')] of
                               (h3, hdrs) \<Rightarrow>
                                 (case deepMergeS (stack st) h3 (readProp h3 opt ''headers'')
                                         (SRef hdrs) of
                                    None \<Rightarrow> Inl h3
                                  | Some (h4, merged) \<Rightarrow>
                                      Inr (writeProp (writeProp h4 opt ''headers'' merged) opt
                                             ''body'' (SStr (JSON_stringify pf data)))))
                          else Inr h2)
                   in case built of
                        Inl h \<Rightarrow> (st\<lparr>store := h\<rparr>, StackExhausted)
                      | Inr h \<Rightarrow>
                          (case fetchFnS (this st) u h opt of
                             Inl e \<Rightarrow> (st\<lparr>store := h\<rparr>, Thrown (FetchError e))
                           | Inr res \<Rightarrow>
                               (st\<lparr>store := h\<rparr>,
                                if \<not> ok res then Thrown (RESTError m u res) else Returned res)))))"

text \<open>Sequencing: what follows an \<open>await\<close> runs when the awaited call returned.\<close>

definition andThen ::
  "machine \<times> 'a outcome \<Rightarrow> (machine \<Rightarrow> 'a \<Rightarrow> machine \<times> 'b outcome) \<Rightarrow> machine \<times> 'b outcome" where
  "andThen r f =
     (case r of
        (st, Returned v) \<Rightarrow> f st v
      | (st, Thrown e) \<Rightarrow> (st, Thrown e)
      | (st, StackExhausted) \<Rightarrow> (st, StackExhausted))"

definition getParsedResponseBodyS ::
  "platform \<Rightarrow> machine \<Rightarrow> HTTPMethod \<Rightarrow> string \<Rightarrow> URLSearchParams option \<Rightarrow> jsval \<Rightarrow>
   nat option \<Rightarrow> machine \<times> jsval outcome" where
  "getParsedResponseBodyS pf st m path params data opts =
     andThen (sendS pf st m path params data opts)
       (\<lambda>st' res. (st', case json pf res of Inl e \<Rightarrow> Thrown e | Inr v \<Rightarrow> Returned v))"

text \<open>A call of a verb method, its options given by reference.\<close>

datatype callS =
    GetS string "URLSearchParams option" "nat option"
  | HeadS string "URLSearchParams option" "nat option"
  | PostS string "URLSearchParams option" jsval "nat option"
  | PutS string "URLSearchParams option" jsval "nat option"
  | DeleteS string "URLSearchParams option" jsval "nat option"
  | PatchS string "URLSearchParams option" jsval "nat option"
  | OptionsS string "URLSearchParams option" jsval "nat option"
  | ConnectS string "URLSearchParams option" "nat option"
  | TraceS string "URLSearchParams option" "nat option"

fun performS :: "platform \<Rightarrow> machine \<Rightarrow> callS \<Rightarrow> machine \<times> result outcome" where
  "performS pf st (GetS path params opts) =
     andThen (getParsedResponseBodyS pf st GET path params Undefined opts)
       (\<lambda>st' v. (st', Returned (Data v)))"
| "performS pf st (HeadS path params opts) =
     andThen (sendS pf st HEAD path params Undefined opts)
       (\<lambda>st' res. (st', Returned (HeaderCollection (headers res))))"
| "performS pf st (PostS path params data opts) =
     andThen (getParsedResponseBodyS pf st POST path params data opts)
       (\<lambda>st' v. (st', Returned (Data v)))"
| "performS pf st (PutS path params data opts) =
     andThen (getParsedResponseBodyS pf st PUT path params data opts)
       (\<lambda>st' v. (st', Returned (Data v)))"
| "performS pf st (DeleteS path params data opts) =
     andThen (getParsedResponseBodyS pf st DELETE path params data opts)
       (\<lambda>st' v. (st', Returned (Data v)))"
| "performS pf st (PatchS path params data opts) =
     andThen (getParsedResponseBodyS pf st PATCH path params data opts)
       (\<lambda>st' v. (st', Returned (Data v)))"
| "performS pf st (OptionsS path params data opts) =
     andThen (sendS pf st OPTIONS path params data opts)
       (\<lambda>st' res.
          case Headers_get (headers res) ''Allow'' of
            None \<Rightarrow>
              (st'\<lparr>consoleS :=
                     consoleS st' @ [Warn ''response does not have an \"Allow\" header'' res]\<rparr>,
               Returned (AllowList []))
          | Some allow \<Rightarrow> (st', Returned (AllowList (split_allow allow))))"
| "performS pf st (ConnectS path params opts) =
     andThen (sendS pf st CONNECT path params Undefined opts) (\<lambda>st' res. (st', Returned NoData))"
| "performS pf st (TraceS path params opts) =
     andThen (getParsedResponseBodyS pf st TRACE path params Undefined opts)
       (\<lambda>st' v. (st', Returned (Data v)))"

text \<open>A state that differs from an earlier one by new objects at most: the fields of the
  client and the objects of the earlier store are the same.\<close>

definition preserves :: "machine \<Rightarrow> machine \<Rightarrow> bool" where
  "preserves st st' =
     (this st' = this st \<and> stack st' = stack st \<and> prefix (store st) (store st'))"

subsection \<open>The earlier revision of updateOptions\<close>

text \<open>
  The class \<open>RestClient\<close> of \<open>src/mod.ts\<close> is an earlier revision of the client. Its
  \<open>updateOptions\<close> is the object spread \<open>{ ...this.defaultOptions, ...options }\<close>: every
  property of \<open>options\<close> replaces the stored property of that name.
\<close>

definition RestClient_updateOptions :: "RESTClient \<Rightarrow> RequestInit \<Rightarrow> RESTClient" where
  "RestClient_updateOptions c opts =
     c\<lparr>defaultOptions := fold (\<lambda>(k, v) obj. set_prop k v obj) opts (defaultOptions c)\<rparr>"

subsection \<open>The arguments of a call\<close>

text \<open>The HTTP method each verb method passes to \<open>send\<close>, and the arguments it forwards;
  \<open>get\<close>, \<open>head\<close>, \<open>connect\<close> and \<open>trace\<close> pass \<open>undefined\<close> as the body.\<close>

fun verb :: "call \<Rightarrow> HTTPMethod" where
  "verb (Get path params opts) = GET"
| "verb (Head path params opts) = HEAD"
| "verb (Post path params data opts) = POST"
| "verb (Put path params data opts) = PUT"
| "verb (Delete path params data opts) = DELETE"
| "verb (Patch path params data opts) = PATCH"
| "verb (Options path params data opts) = OPTIONS"
| "verb (Connect path params opts) = CONNECT"
| "verb (Trace path params opts) = TRACE"

fun callPath :: "call \<Rightarrow> string" where
  "callPath (Get path params opts) = path"
| "callPath (Head path params opts) = path"
| "callPath (Post path params data opts) = path"
| "callPath (Put path params data opts) = path"
| "callPath (Delete path params data opts) = path"
| "callPath (Patch path params data opts) = path"
| "callPath (Options path params data opts) = path"
| "callPath (Connect path params opts) = path"
| "callPath (Trace path params opts) = path"

fun callParams :: "call \<Rightarrow> URLSearchParams option" where
  "callParams (Get path params opts) = params"
| "callParams (Head path params opts) = params"
| "callParams (Post path params data opts) = params"
| "callParams (Put path params data opts) = params"
| "callParams (Delete path params data opts) = params"
| "callParams (Patch path params data opts) = params"
| "callParams (Options path params data opts) = params"
| "callParams (Connect path params opts) = params"
| "callParams (Trace path params opts) = params"

fun payload :: "call \<Rightarrow> jsval" where
  "payload (Get path params opts) = Undefined"
| "payload (Head path params opts) = Undefined"
| "payload (Post path params data opts) = data"
| "payload (Put path params data opts) = data"
| "payload (Delete path params data opts) = data"
| "payload (Patch path params data opts) = data"
| "payload (Options path params data opts) = data"
| "payload (Connect path params opts) = Undefined"
| "payload (Trace path params opts) = Undefined"

fun callOptions :: "call \<Rightarrow> RequestInit option" where
  "callOptions (Get path params opts) = opts"
| "callOptions (Head path params opts) = opts"
| "callOptions (Post path params data opts) = opts"
| "callOptions (Put path params data opts) = opts"
| "callOptions (Delete path params data opts) = opts"
| "callOptions (Patch path params data opts) = opts"
| "callOptions (Options path params data opts) = opts"
| "callOptions (Connect path params opts) = opts"
| "callOptions (Trace path params opts) = opts"

text \<open>A header of a request: a property of the \<open>headers\<close> object of its options.\<close>

definition header :: "RequestInit \<Rightarrow> string \<Rightarrow> jsval" where
  "header init name = get_prop (asObject (get_prop init ''headers'')) name"

subsection \<open>Whitespace-trimmed, comma-separated tokens\<close>






subsection \<open>URL resolution and the query string\<close>

text \<open>
  Modelled from the spec: \<open>buildAbsoluteURL\<close> is imported from the package \<open>url-toolkit\<close>,
  which is not part of the sources. The specification describes it as resolving the path
  relative to the base URL "following standard URL-resolution rules"; the model is
  reference resolution as RFC 3986 (section 5.2) defines it: both strings are cut into
  scheme, authority, path, query and fragment, each part keeping its delimiter; the
  reference overrides the base from its first non-empty part on; a relative path replaces
  the last segment of the base path; dot segments are removed.
\<close>

record URLParts =
  urlScheme :: string
  urlNetLoc :: string
  urlPath :: string
  urlQuery :: string
  urlFragment :: string

definition isAlpha :: "char \<Rightarrow> bool" where
  "isAlpha c = (let n = (of_char c :: nat) in (65 \<le> n \<and> n \<le> 90) \<or> (97 \<le> n \<and> n \<le> 122))"

definition isDigit :: "char \<Rightarrow> bool" where
  "isDigit c = (let n = (of_char c :: nat) in 48 \<le> n \<and> n \<le> 57)"

definition isSchemeChar :: "char \<Rightarrow> bool" where
  "isSchemeChar c = (isAlpha c \<or> isDigit c \<or> c = CHR ''+'' \<or> c = CHR ''-'' \<or> c = CHR ''.'')"

text \<open>The scheme (a letter, then letters, digits, \<open>+\<close>, \<open>-\<close>, \<open>.\<close>, up to a colon), the
  authority (after \<open>//\<close>, up to the next slash) and the path of a string without query and
  fragment.\<close>

definition hierParts :: "string \<Rightarrow> string \<times> string \<times> string" where
  "hierParts s =
     (let w = takeWhile isSchemeChar s;
          sch = (if w \<noteq> [] \<and> isAlpha (hd w) \<and> take 1 (drop (length w) s) = '':''
                 then w @ '':'' else []);
          s1 = drop (length sch) s;
          nl = (if take 2 s1 = ''//''
                then ''//'' @ takeWhile (\<lambda>c. c \<noteq> CHR ''/'') (drop 2 s1) else [])
      in (sch, nl, drop (length nl) s1))"

definition parseURL :: "string \<Rightarrow> URLParts" where
  "parseURL s =
     (let h = takeWhile (\<lambda>c. c \<noteq> CHR ''#'') s;
          pq = takeWhile (\<lambda>c. c \<noteq> CHR ''?'') h
      in case hierParts pq of
           (sch, nl, p) \<Rightarrow>
             \<lparr>urlScheme = sch, urlNetLoc = nl, urlPath = p,
              urlQuery = dropWhile (\<lambda>c. c \<noteq> CHR ''?'') h,
              urlFragment = dropWhile (\<lambda>c. c \<noteq> CHR ''#'') s\<rparr>)"

definition buildURLFromParts :: "URLParts \<Rightarrow> string" where
  "buildURLFromParts t = urlScheme t @ urlNetLoc t @ urlPath t @ urlQuery t @ urlFragment t"




















subsection \<open>Test doubles\<close>

text \<open>
  The examples run the client on a stand-in platform: a resolver that is right for a base
  ending in a slash and a reference \<open>./name\<close> or \<open>name\<close>, a JSON codec that is a table of
  the bodies the examples use, an encoder for names and values that need no escaping, and
  a network that is down. The transports are injected as \<open>fetchFn\<close>.
\<close>

definition exampleTags :: jsval where
  "exampleTags = Obj [(''tags'', Arr [Str ''a'', Str ''b''])]"

definition exampleErrors :: jsval where
  "exampleErrors = Obj [(''errors'', Obj [(''body'', Arr [Str ''email taken''])])]"

definition exampleUser :: jsval where
  "exampleUser = Obj [(''user'', Obj [(''email'', Str ''foo@example.com'')])]"

definition exampleCodec :: "(jsval \<times> string) list" where
  "exampleCodec =
     [(exampleTags, ''{\"tags\":[\"a\",\"b\"]}''),
      (exampleErrors, ''{\"errors\":{\"body\":[\"email taken\"]}}''),
      (exampleUser, ''{\"user\":{\"email\":\"foo@example.com\"}}''),
      (Num 0, ''0'')]"

definition examplePlatform :: platform where
  "examplePlatform =
     \<lparr> buildAbsoluteURL = (\<lambda>b r. Inr (b @ (if take 2 r = ''./'' then drop 2 r else r))),
       JSON_stringify = (\<lambda>v. case map_of exampleCodec v of None \<Rightarrow> ''null'' | Some s \<Rightarrow> s),
       JSON_parse =
         (\<lambda>s. case map_of (map (\<lambda>(v, t). (t, v)) exampleCodec) s of
                None \<Rightarrow> Inl ''Unexpected token''
              | Some v \<Rightarrow> Inr v),
       formEncode = (\<lambda>s. s),
       fetch = (\<lambda>u init. Inl ''NetworkError'') \<rparr>"

definition exampleBase :: string where
  "exampleBase = ''https://api.example.com/api/''"

text \<open>A server that answers every request with the same response.\<close>

definition respondWith :: "Response \<Rightarrow> transport" where
  "respondWith res u init = Inr res"

text \<open>A server that answers 401 unless the request carries the token in its
  \<open>Authentication\<close> header.\<close>

definition tokenServer :: "string \<Rightarrow> transport" where
  "tokenServer token u init =
     (if header init ''Authentication'' = Str token
      then Inr \<lparr>status = 200, headers = [], body = ''{\"tags\":[\"a\",\"b\"]}''\<rparr>
      else Inr \<lparr>status = 401, headers = [], body = []\<rparr>)"

definition tagsResponse :: Response where
  "tagsResponse = \<lparr>status = 200, headers = [(''Content-Type'', ''application/json'')],
                    body = ''{\"tags\":[\"a\",\"b\"]}''\<rparr>"


definition exampleClient :: RESTClient where
  "exampleClient =
     new_RESTClient examplePlatform (Some exampleBase)
       (Some [(''headers'', Obj [(''Content-Type'', Str ''application/json''),
                                 (''Accept'', Str ''text/plain'')]),
              (''credentials'', Str ''omit'')])
       None"


text \<open>A store with an option bag at address 1 whose \<open>headers\<close> object is at address 0, a
  server that answers with the tags document when the request it reads from the store is
  a POST with both headers, and a client constructed with that option bag.\<close>

definition jsonServer :: transportS where
  "jsonServer u h opt =
     (case readProp h opt ''headers'' of
        SRef a \<Rightarrow>
          (if readProp h a ''Content-Type'' = SStr ''application/json'' \<and>
              readProp h a ''Accept'' = SStr ''text/plain'' \<and>
              readProp h opt ''method'' = SStr ''POST''
           then Inr tagsResponse
           else Inr \<lparr>status = 400, headers = [], body = []\<rparr>)
      | _ \<Rightarrow> Inr \<lparr>status = 400, headers = [], body = []\<rparr>)"

definition exampleStore :: store where
  "exampleStore =
     [[(''Accept'', SStr ''text/plain'')],
      [(''headers'', SRef 0), (''credentials'', SStr ''omit'')]]"

definition exampleMachine :: machine where
  "exampleMachine =
     new_RESTClientS (\<lambda>u h opt. Inl ''NetworkError'') exampleStore 16 (Some exampleBase) (Some 1)
       (Some jsonServer)"

section \<open>What a call does\<close>

lemmas verb_defs = get_def head_def post_def put_def delete_def patch_def options_def
  connect_def trace_def getParsedResponseBody_def returning_def

text \<open>\<open>send\<close> never reads \<open>defaultOptions\<close>.\<close>

lemma send_ignores_defaultOptions:
  "send pf (c\<lparr>defaultOptions := d\<rparr>) m path params data opts = send pf c m path params data opts"
  by (simp add: send_def requestURL_def Let_def split: sum.splits)

text \<open>The four ways a call can end, in the order of the code.\<close>

lemma perform_URLError:
  "requestURL pf c (callPath r) (callParams r) = Inl e \<Longrightarrow>
   perform pf c r = (\<lparr>requests = [], console = []\<rparr>, Inl (URLError e))"
  by (cases r) (simp_all add: verb_defs send_def)

lemma perform_FetchError:
  "requestURL pf c (callPath r) (callParams r) = Inr u \<Longrightarrow>
   fetchFn c u (requestInit pf (verb r) (payload r) (callOptions r)) = Inl e \<Longrightarrow>
   perform pf c r =
     (\<lparr>requests = [(u, requestInit pf (verb r) (payload r) (callOptions r))], console = []\<rparr>,
      Inl (FetchError e))"
  by (cases r) (simp_all add: verb_defs send_def)

lemma perform_RESTError:
  "requestURL pf c (callPath r) (callParams r) = Inr u \<Longrightarrow>
   fetchFn c u (requestInit pf (verb r) (payload r) (callOptions r)) = Inr res \<Longrightarrow>
   \<not> ok res \<Longrightarrow>
   perform pf c r =
     (\<lparr>requests = [(u, requestInit pf (verb r) (payload r) (callOptions r))], console = []\<rparr>,
      Inl (RESTError (verb r) u res))"
  by (cases r) (simp_all add: verb_defs send_def)

lemma perform_ok_not_RESTError:
  "requestURL pf c (callPath r) (callParams r) = Inr u \<Longrightarrow>
   fetchFn c u (requestInit pf (verb r) (payload r) (callOptions r)) = Inr res \<Longrightarrow>
   ok res \<Longrightarrow> snd (perform pf c r) = Inl e \<Longrightarrow> \<not> is_RESTError e"
  by (cases r) (auto simp add: verb_defs send_def json_def split: sum.splits option.splits)


section \<open>Default options and the request\<close>

text \<open>
  Claim C1. The options handed to the transport should be the deep merge of the stored
  \<open>defaultOptions\<close> with the options of the call, so that after \<open>auth(token)\<close> every
  request carries the \<open>Authentication\<close> header. The code builds the options of a request
  from the options of the call alone: \<open>send\<close> starts from \<open>{ ...options }\<close> and never reads
  \<open>this.defaultOptions\<close>. A client created for a server that demands the token, after
  \<open>auth\<close> with that token, holds the header in its default options, and its \<open>get\<close> hands the
  transport the options \<open>{ method: "GET" }\<close> only; the server answers 401 and the call
  raises \<open>RESTError\<close>.
\<close>

theorem C1_auth_header_not_sent:
  "(let token = ''Bearer abc123'';
       c = auth (new_RESTClient examplePlatform (Some exampleBase) None
                  (Some (tokenServer token))) token
   in header (defaultOptions c) ''Authentication'' = Str token \<and>
      perform examplePlatform c (Get ''./tags'' None None) =
        (\<lparr>requests = [(''https://api.example.com/api/tags'', [(''method'', Str ''GET'')])],
          console = []\<rparr>,
         Inl (RESTError GET ''https://api.example.com/api/tags''
                \<lparr>status = 401, headers = [], body = []\<rparr>)))"
  by (simp add: Let_def auth_def updateOptions_def new_RESTClient_def spread_def header_def
      get_prop_def asObject_def verb_defs send_def requestURL_def requestInit_def
      examplePlatform_def exampleBase_def tokenServer_def set_prop_def ok_def)

text \<open>Nor does any verb method: the outcome of a call is the same whatever the client has
  stored.\<close>

lemma perform_ignores_defaultOptions:
  "perform pf (c\<lparr>defaultOptions := d\<rparr>) r = perform pf c r"
  by (cases r) (simp_all add: verb_defs send_ignores_defaultOptions)

section \<open>updateOptions\<close>

lemma map_of_mergeProps:
  "distinct (map fst b) \<Longrightarrow>
   map_of (mergeProps a b) k =
     (case map_of b k of
        None \<Rightarrow> map_of a k
      | Some v \<Rightarrow> Some (case map_of a k of None \<Rightarrow> v | Some u \<Rightarrow> deepMerge u v))"
proof (induction b arbitrary: a)
  case Nil
  then show ?case by simp
next
  case (Cons p b)
  obtain k' v' where p: "p = (k', v')" by (cases p)
  from Cons.prems p have d: "distinct (map fst b)" and nk: "k' \<notin> fst ` set b" by auto
  from nk have nm: "map_of b k' = None" by (simp add: map_of_eq_None_iff)
  show ?case
    using Cons.IH [OF d] nm
    by (auto simp: p update_conv split: option.splits)
qed

lemma deepMerge_Undefined: "deepMerge Undefined v = v"
  by (cases v) simp_all

lemma scalar_not_mapping: "isScalar v \<Longrightarrow> \<not> isMapping v"
  by (cases v) (simp_all add: isScalar_def isMapping_def)

lemma deepMerge_non_mapping: "\<not> isMapping v \<Longrightarrow> deepMerge u v = v"
  by (cases u; cases v) (simp_all add: isMapping_def)

lemma deepMerge_onto_non_mapping: "\<not> isMapping u \<Longrightarrow> deepMerge u v = v"
  by (cases u; cases v) (simp_all add: isMapping_def)

lemma get_prop_mergeProps:
  "wf_object b \<Longrightarrow>
   get_prop (mergeProps a b) k =
     (case map_of b k of None \<Rightarrow> get_prop a k | Some v \<Rightarrow> deepMerge (get_prop a k) v)"
  by (simp add: wf_object_def get_prop_def map_of_mergeProps deepMerge_Undefined split: option.splits)

lemma defaultOptions_updateOptions:
  "defaultOptions (updateOptions c opts) = mergeProps (defaultOptions c) opts"
  by (simp add: updateOptions_def asObject_def)

lemma header_merged:
  assumes "map_of opts ''headers'' = Some (Obj h1)" "wf_object opts" "wf_object h1"
  shows "header (mergeProps a opts) n =
     (case map_of h1 n of None \<Rightarrow> header a n | Some v \<Rightarrow> deepMerge (header a n) v)"
proof -
  have g: "get_prop (mergeProps a opts) ''headers'' = deepMerge (get_prop a ''headers'') (Obj h1)"
    using assms(1,2) by (simp add: get_prop_mergeProps)
  show ?thesis
  proof (cases "isMapping (get_prop a ''headers'')")
    case True
    then obtain h0 where h0: "get_prop a ''headers'' = Obj h0"
      by (cases "get_prop a ''headers''") (simp_all add: isMapping_def)
    show ?thesis
      using assms(3)
      by (simp add: header_def g h0 asObject_def get_prop_mergeProps split: option.splits)
  next
    case False
    then have m: "deepMerge (get_prop a ''headers'') (Obj h1) = Obj h1"
      by (rule deepMerge_onto_non_mapping)
    from False have e: "asObject (get_prop a ''headers'') = []"
      by (cases "get_prop a ''headers''") (simp_all add: isMapping_def asObject_def)
    have new: "header (mergeProps a opts) n = get_prop h1 n"
      by (simp add: header_def g m asObject_def)
    have "header a n = get_prop [] n"
      by (simp add: header_def e)
    then have old: "header a n = Undefined"
      by (simp add: get_prop_def)
    show ?thesis
      by (simp add: new old get_prop_def deepMerge_Undefined split: option.splits)
  qed
qed

lemma deepGet_Undefined: "deepGet Undefined p = Undefined"
  by (induction p) (simp_all add: asObject_def get_prop_def)

lemma deepGet_append: "deepGet v (p @ q) = deepGet (deepGet v p) q"
  by (induction p arbitrary: v) simp_all

lemma asObject_non_mapping: "\<not> isMapping u \<Longrightarrow> asObject u = []"
  by (cases u) (simp_all add: isMapping_def asObject_def)

lemma deepGet_deepMerge_overwritten:
  "occursIn b p \<Longrightarrow> isScalar (deepGet b p) \<Longrightarrow> deepGet (deepMerge a b) p = deepGet b p"
proof (induction p arbitrary: a b)
  case Nil
  then show ?case by (simp add: deepMerge_non_mapping scalar_not_mapping)
next
  case (Cons k p)
  from Cons.prems(1) obtain ps w where b: "b = Obj ps" and wf: "wf_object ps"
    and w: "map_of ps k = Some w" and occ: "occursIn w p"
    by (cases b) (auto split: option.splits)
  from Cons.prems(2) have sc: "isScalar (deepGet w p)"
    by (simp add: b asObject_def get_prop_def w)
  show ?case
  proof (cases "isMapping a")
    case True
    then obtain as where a: "a = Obj as" by (cases a) (simp_all add: isMapping_def)
    have "deepGet (deepMerge a b) (k # p) = deepGet (deepMerge (get_prop as k) w) p"
      by (simp add: a b asObject_def get_prop_mergeProps [OF wf] w)
    also have "\<dots> = deepGet w p" by (rule Cons.IH [OF occ sc])
    finally show ?thesis by (simp add: b asObject_def get_prop_def w)
  next
    case False
    then show ?thesis by (simp add: deepMerge_onto_non_mapping)
  qed
qed

lemma deepGet_deepMerge_preserved:
  "occursIn b q \<Longrightarrow> deepGet b q = Obj m \<Longrightarrow> map_of m k = None \<Longrightarrow> wf_object m \<Longrightarrow>
   deepGet (deepMerge a b) (q @ k # rest) = deepGet a (q @ k # rest)"
proof (induction q arbitrary: a b)
  case Nil
  then have b: "b = Obj m" by simp
  show ?case
  proof (cases "isMapping a")
    case True
    then obtain as where a: "a = Obj as" by (cases a) (simp_all add: isMapping_def)
    show ?thesis
      using Nil.prems by (simp add: a b asObject_def get_prop_mergeProps)
  next
    case False
    then show ?thesis using Nil.prems
      by (simp add: b deepMerge_onto_non_mapping asObject_non_mapping)
        (simp add: asObject_def get_prop_def)
  qed
next
  case (Cons k' q)
  from Cons.prems(1) obtain ps w where b: "b = Obj ps" and wf: "wf_object ps"
    and w: "map_of ps k' = Some w" and occ: "occursIn w q"
    by (cases b) (auto split: option.splits)
  from Cons.prems(2) have dg: "deepGet w q = Obj m"
    by (simp add: b asObject_def get_prop_def w)
  note IH = Cons.IH [OF occ dg Cons.prems(3,4)]
  show ?case
  proof (cases "isMapping a")
    case True
    then obtain as where a: "a = Obj as" by (cases a) (simp_all add: isMapping_def)
    have "deepGet (deepMerge a b) ((k' # q) @ k # rest) =
        deepGet (deepMerge (get_prop as k') w) (q @ k # rest)"
      by (simp add: a b asObject_def get_prop_mergeProps [OF wf] w)
    also have "\<dots> = deepGet (get_prop as k') (q @ k # rest)" by (rule IH)
    finally show ?thesis by (simp add: a asObject_def)
  next
    case False
    have "deepGet (deepMerge a b) ((k' # q) @ k # rest) = deepGet w (q @ k # rest)"
      using False by (simp add: deepMerge_onto_non_mapping b asObject_def get_prop_def w)
    also have "\<dots> = deepGet (deepMerge Undefined w) (q @ k # rest)"
      by (simp add: deepMerge_Undefined)
    also have "\<dots> = deepGet Undefined (q @ k # rest)" by (rule IH)
    also have "\<dots> = deepGet a ((k' # q) @ k # rest)"
      using False by (simp add: asObject_non_mapping deepGet_Undefined) (simp add: get_prop_def deepGet_Undefined)
    finally show ?thesis .
  qed
qed

text \<open>
  Claim C2. For every client and every options object, \<open>updateOptions\<close> deep-merges the
  argument into the stored \<open>defaultOptions\<close>. Field by field, the new value is the stored
  value merged with the value of the argument: a field the argument does not have is
  kept and a field it has with a scalar value is overwritten. Nested mappings are merged
  key by key at every depth: along every path of the argument that ends in a scalar the
  new options hold that scalar, and every path that leaves the argument at a key one of its
  mappings does not have leads to what the stored options held there. For the \<open>headers\<close>
  mapping in particular, every header the argument does not name keeps its value and
  every header it names takes the new value. The keys of an object are distinct
  (\<open>wf_object\<close>).
\<close>

theorem C2_updateOptions_deep_merge:
  assumes "wf_object opts"
  shows "(\<forall>k. get_prop (defaultOptions (updateOptions c opts)) k =
              (case map_of opts k of
                 None \<Rightarrow> get_prop (defaultOptions c) k
               | Some v \<Rightarrow> deepMerge (get_prop (defaultOptions c) k) v)) \<and>
         (\<forall>k. map_of opts k = None \<longrightarrow>
            get_prop (defaultOptions (updateOptions c opts)) k = get_prop (defaultOptions c) k) \<and>
         (\<forall>k v. map_of opts k = Some v \<and> isScalar v \<longrightarrow>
            get_prop (defaultOptions (updateOptions c opts)) k = v) \<and>
         (\<forall>p. occursIn (Obj opts) p \<and> isScalar (deepGet (Obj opts) p) \<longrightarrow>
            deepGet (Obj (defaultOptions (updateOptions c opts))) p = deepGet (Obj opts) p) \<and>
         (\<forall>q m k rest.
            occursIn (Obj opts) q \<and> deepGet (Obj opts) q = Obj m \<and> wf_object m \<and>
            map_of m k = None \<longrightarrow>
            deepGet (Obj (defaultOptions (updateOptions c opts))) (q @ k # rest) =
              deepGet (Obj (defaultOptions c)) (q @ k # rest)) \<and>
         (\<forall>h1. map_of opts ''headers'' = Some (Obj h1) \<and> wf_object h1 \<longrightarrow>
            (\<forall>n. map_of h1 n = None \<longrightarrow>
               header (defaultOptions (updateOptions c opts)) n = header (defaultOptions c) n) \<and>
            (\<forall>n v. map_of h1 n = Some v \<and> isScalar v \<longrightarrow>
               header (defaultOptions (updateOptions c opts)) n = v))"
proof -
  have new: "Obj (defaultOptions (updateOptions c opts)) =
      deepMerge (Obj (defaultOptions c)) (Obj opts)"
    by (simp add: defaultOptions_updateOptions)
  have top: "get_prop (defaultOptions (updateOptions c opts)) k =
      (case map_of opts k of
         None \<Rightarrow> get_prop (defaultOptions c) k
       | Some v \<Rightarrow> deepMerge (get_prop (defaultOptions c) k) v)" for k
    using assms by (simp add: defaultOptions_updateOptions get_prop_mergeProps)
  have scalar: "get_prop (defaultOptions (updateOptions c opts)) k = v"
    if "map_of opts k = Some v \<and> isScalar v" for k v
    using that by (simp add: top deepMerge_non_mapping scalar_not_mapping)
  have over: "deepGet (Obj (defaultOptions (updateOptions c opts))) p = deepGet (Obj opts) p"
    if "occursIn (Obj opts) p \<and> isScalar (deepGet (Obj opts) p)" for p
    unfolding new using that by (intro deepGet_deepMerge_overwritten) simp_all
  have kept: "deepGet (Obj (defaultOptions (updateOptions c opts))) (q @ k # rest) =
      deepGet (Obj (defaultOptions c)) (q @ k # rest)"
    if "occursIn (Obj opts) q \<and> deepGet (Obj opts) q = Obj m \<and> wf_object m \<and> map_of m k = None"
    for q m k rest
    unfolding new using that by (intro deepGet_deepMerge_preserved [where m = m]) simp_all
  have hkept: "header (defaultOptions (updateOptions c opts)) n = header (defaultOptions c) n"
    if "map_of opts ''headers'' = Some (Obj h1) \<and> wf_object h1" "map_of h1 n = None" for h1 n
    using that assms by (simp add: defaultOptions_updateOptions header_merged)
  have hover: "header (defaultOptions (updateOptions c opts)) n = v"
    if "map_of opts ''headers'' = Some (Obj h1) \<and> wf_object h1" "map_of h1 n = Some v \<and> isScalar v"
    for h1 n v
    using that assms
    by (simp add: defaultOptions_updateOptions header_merged deepMerge_non_mapping scalar_not_mapping)
  show ?thesis
  proof (intro conjI allI impI)
    fix k
    show "get_prop (defaultOptions (updateOptions c opts)) k =
      (case map_of opts k of
         None \<Rightarrow> get_prop (defaultOptions c) k
       | Some v \<Rightarrow> deepMerge (get_prop (defaultOptions c) k) v)"
      by (rule top)
  next
    fix k assume "map_of opts k = None"
    then show "get_prop (defaultOptions (updateOptions c opts)) k = get_prop (defaultOptions c) k"
      by (simp add: top)
  next
    fix k v assume "map_of opts k = Some v \<and> isScalar v"
    then show "get_prop (defaultOptions (updateOptions c opts)) k = v" by (rule scalar)
  next
    fix p assume "occursIn (Obj opts) p \<and> isScalar (deepGet (Obj opts) p)"
    then show "deepGet (Obj (defaultOptions (updateOptions c opts))) p = deepGet (Obj opts) p"
      by (rule over)
  next
    fix q m k rest
    assume "occursIn (Obj opts) q \<and> deepGet (Obj opts) q = Obj m \<and> wf_object m \<and>
      map_of m k = None"
    then show "deepGet (Obj (defaultOptions (updateOptions c opts))) (q @ k # rest) =
      deepGet (Obj (defaultOptions c)) (q @ k # rest)"
      by (rule kept)
  next
    fix h1 n
    assume "map_of opts ''headers'' = Some (Obj h1) \<and> wf_object h1" "map_of h1 n = None"
    then show "header (defaultOptions (updateOptions c opts)) n = header (defaultOptions c) n"
      by (rule hkept)
  next
    fix h1 n v
    assume "map_of opts ''headers'' = Some (Obj h1) \<and> wf_object h1"
      "map_of h1 n = Some v \<and> isScalar v"
    then show "header (defaultOptions (updateOptions c opts)) n = v"
      by (rule hover)
  qed
qed

theorem C2_witness:
  "wf_object [(''headers'', Obj [(''Accept'', Str ''application/json'')]),
              (''credentials'', Str ''include''),
              (''next'', Obj [(''revalidate'', Num 10)])] \<and>
   defaultOptions (updateOptions exampleClient
      [(''headers'', Obj [(''Accept'', Str ''application/json'')]),
       (''credentials'', Str ''include''),
       (''next'', Obj [(''revalidate'', Num 10)])]) =
     [(''headers'', Obj [(''Content-Type'', Str ''application/json''),
                         (''Accept'', Str ''application/json'')]),
      (''credentials'', Str ''include''),
      (''next'', Obj [(''revalidate'', Num 10)])]"
proof -
  let ?opts = "[(''headers'', Obj [(''Accept'', Str ''application/json'')]),
               (''credentials'', Str ''include''),
               (''next'', Obj [(''revalidate'', Num 10)])]"
  let ?new = "defaultOptions (updateOptions exampleClient ?opts)"
  have wf: "wf_object ?opts" by (simp add: wf_object_def)
  note inst = C2_updateOptions_deep_merge [OF wf, of exampleClient]
  have "deepGet (Obj ?new) [''next'', ''revalidate''] = Num 10"
    using inst [THEN conjunct2, THEN conjunct2, THEN conjunct2, THEN conjunct1, rule_format,
        of "[''next'', ''revalidate'']"]
    by (simp add: wf_object_def asObject_def get_prop_def isScalar_def)
  moreover have "?new =
     [(''headers'', Obj [(''Content-Type'', Str ''application/json''),
                         (''Accept'', Str ''application/json'')]),
      (''credentials'', Str ''include''),
      (''next'', Obj [(''revalidate'', Num 10)])]"
    by (simp add: updateOptions_def exampleClient_def new_RESTClient_def spread_def asObject_def)
  ultimately show ?thesis using wf by simp
qed


text \<open>The earlier revision replaces the \<open>headers\<close> object as a whole: the same update on
  the same client loses the \<open>Content-Type\<close> header.\<close>

lemma RestClient_updateOptions_replaces_headers:
  "(let opts = [(''headers'', Obj [(''Accept'', Str ''application/json'')]),
               (''credentials'', Str ''include'')];
        c = RestClient_updateOptions exampleClient opts
    in header (defaultOptions exampleClient) ''Content-Type'' = Str ''application/json'' \<and>
       header (defaultOptions c) ''Content-Type'' = Undefined \<and>
       header (defaultOptions c) ''Accept'' = Str ''application/json'')"
  by (simp add: Let_def RestClient_updateOptions_def exampleClient_def new_RESTClient_def
      spread_def set_prop_def header_def get_prop_def asObject_def)

section \<open>Failure responses\<close>

text \<open>
  Claim C3. For every response the transport delivers to a verb call, the call raises
  \<open>RESTError\<close> if and only if the status of the response is outside the range 200 to 299,
  and the error raised carries the HTTP method of the call, the resolved URL and the
  response, with its status and body.
\<close>

theorem C3_RESTError_iff_not_2xx:
  assumes "requestURL pf c (callPath r) (callParams r) = Inr u"
    and "fetchFn c u (requestInit pf (verb r) (payload r) (callOptions r)) = Inr res"
  shows "((\<exists>e. snd (perform pf c r) = Inl e \<and> is_RESTError e) \<longleftrightarrow>
            \<not> (200 \<le> status res \<and> status res < 300)) \<and>
         (\<forall>e. snd (perform pf c r) = Inl e \<and> is_RESTError e \<longrightarrow>
            errMethod e = verb r \<and> errURL e = u \<and> errResponse e = res \<and>
            status (errResponse e) = status res \<and> body (errResponse e) = body res)"
proof (cases "ok res")
  case True
  then have "\<And>e. snd (perform pf c r) = Inl e \<Longrightarrow> \<not> is_RESTError e"
    using perform_ok_not_RESTError [OF assms] by blast
  with True show ?thesis by (auto simp: ok_def)
next
  case False
  then have "perform pf c r =
     (\<lparr>requests = [(u, requestInit pf (verb r) (payload r) (callOptions r))], console = []\<rparr>,
      Inl (RESTError (verb r) u res))"
    by (rule perform_RESTError [OF assms])
  with False show ?thesis by (auto simp: ok_def)
qed

theorem C3_witness:
  "(let c = new_RESTClient examplePlatform (Some exampleBase) None
              (Some (respondWith \<lparr>status = 422, headers = [],
                       body = ''{\"errors\":{\"body\":[\"email taken\"]}}''\<rparr>));
        r = Post ''./users'' None exampleUser None
    in requestURL examplePlatform c (callPath r) (callParams r) = Inr ''https://api.example.com/api/users'' \<and>
       snd (perform examplePlatform c r) =
         Inl (RESTError POST ''https://api.example.com/api/users''
               \<lparr>status = 422, headers = [], body = ''{\"errors\":{\"body\":[\"email taken\"]}}''\<rparr>) \<and>
       json examplePlatform \<lparr>status = 422, headers = [],
              body = ''{\"errors\":{\"body\":[\"email taken\"]}}''\<rparr> = Inr exampleErrors)"
proof -
  let ?res = "\<lparr>status = 422, headers = [], body = ''{\"errors\":{\"body\":[\"email taken\"]}}''\<rparr>"
  let ?c = "new_RESTClient examplePlatform (Some exampleBase) None (Some (respondWith ?res))"
  let ?r = "Post ''./users'' None exampleUser None"
  have u: "requestURL examplePlatform ?c (callPath ?r) (callParams ?r) = Inr ''https://api.example.com/api/users''"
    by (simp add: requestURL_def examplePlatform_def new_RESTClient_def exampleBase_def)
  have f: "fetchFn ?c ''https://api.example.com/api/users''
             (requestInit examplePlatform (verb ?r) (payload ?r) (callOptions ?r)) = Inr ?res"
    by (simp add: new_RESTClient_def respondWith_def)
  from C3_RESTError_iff_not_2xx [OF u f]
  obtain e where e: "snd (perform examplePlatform ?c ?r) = Inl e" "is_RESTError e"
    "errMethod e = POST" "errURL e = ''https://api.example.com/api/users''" "errResponse e = ?res"
    by auto
  then have "e = RESTError POST ''https://api.example.com/api/users'' ?res"
    by (cases e) simp_all
  moreover have "json examplePlatform ?res = Inr exampleErrors"
    by (simp add: json_def examplePlatform_def exampleCodec_def exampleTags_def exampleErrors_def exampleUser_def)
  ultimately show ?thesis using u e(1) by (simp add: Let_def)
qed


section \<open>The request body\<close>

lemma get_prop_set_prop:
  "get_prop (set_prop k v obj) k' = (if k' = k then v else get_prop obj k')"
  by (simp add: get_prop_def set_prop_def update_conv)

lemma requestInit_falsy:
  "\<not> truthy data \<Longrightarrow>
   requestInit pf m data opts = set_prop ''method'' (Str (methodName m)) (spread opts)"
  by (simp add: requestInit_def)






text \<open>
  Claim C10. For every verb call whose body argument is one of the falsy values \<open>0\<close>, the
  empty string, \<open>false\<close> or \<open>null\<close>, the client treats the body as absent: the options of
  the request are the options of the call with the method set, no \<open>Content-Type\<close> header
  is set, no payload is serialized, and the call does what the call without a body does.
\<close>

theorem C10_falsy_body_treated_as_absent:
  assumes "data \<in> {Num 0, Str [], Bool False, Null}"
  shows "requestInit pf m data opts = set_prop ''method'' (Str (methodName m)) (spread opts) \<and>
         header (requestInit pf m data opts) ''Content-Type'' =
           header (spread opts) ''Content-Type'' \<and>
         get_prop (requestInit pf m data opts) ''body'' = get_prop (spread opts) ''body'' \<and>
         send pf c m path params data opts = send pf c m path params Undefined opts \<and>
         perform pf c (Post path params data opts) = perform pf c (Post path params Undefined opts) \<and>
         perform pf c (Put path params data opts) = perform pf c (Put path params Undefined opts) \<and>
         perform pf c (Delete path params data opts) =
           perform pf c (Delete path params Undefined opts) \<and>
         perform pf c (Patch path params data opts) =
           perform pf c (Patch path params Undefined opts) \<and>
         perform pf c (Options path params data opts) =
           perform pf c (Options path params Undefined opts)"
proof -
  from assms have f: "\<not> truthy data" by auto
  have i: "requestInit pf m data opts = requestInit pf m Undefined opts" for m
    using f by (simp add: requestInit_falsy)
  have s: "send pf c m path params data opts = send pf c m path params Undefined opts" for m
    by (simp add: send_def i Let_def split: sum.splits)
  show ?thesis
    using f by (simp add: s verb_defs requestInit_falsy header_def get_prop_set_prop)
qed

theorem C10_witness:
  "(let c = new_RESTClient examplePlatform (Some exampleBase) None (Some (respondWith tagsResponse))
    in Str [] \<in> {Num 0, Str [], Bool False, Null} \<and>
       requestInit examplePlatform PATCH (Str []) None = [(''method'', Str ''PATCH'')] \<and>
       perform examplePlatform c (Patch ''./tags'' None (Str []) None) =
         perform examplePlatform c (Patch ''./tags'' None Undefined None))"
proof -
  have m: "Str [] \<in> {Num 0, Str [], Bool False, Null}" by simp
  from C10_falsy_body_treated_as_absent [OF m, of examplePlatform PATCH None]
  show ?thesis by (simp add: Let_def spread_def set_prop_def)
qed

section \<open>Successful responses\<close>





section \<open>head\<close>

text \<open>The JSON parser of the host has no part in building or sending a request.\<close>

lemma requestURL_parser:
  "requestURL (pf\<lparr>JSON_parse := parser\<rparr>) c path params = requestURL pf c path params"
  by (simp add: requestURL_def URLSearchParams_toString_def split: option.splits)

lemma requestInit_parser:
  "requestInit (pf\<lparr>JSON_parse := parser\<rparr>) m data opts = requestInit pf m data opts"
  by (simp add: requestInit_def Let_def)

lemma send_parser:
  "send (pf\<lparr>JSON_parse := parser\<rparr>) c m path params data opts =
   send pf c m path params data opts"
  by (simp add: send_def requestURL_parser requestInit_parser Let_def split: sum.splits)

text \<open>
  Claim C6. For every successful \<open>head\<close> request, whatever the body of the response, the
  client does not parse a JSON body: the call returns the header collection of the
  response, and its outcome is the same for every JSON parser the host may have.
\<close>

theorem C6_head_returns_headers:
  assumes "requestURL pf c path params = Inr u"
    and "fetchFn c u (requestInit pf HEAD Undefined opts) = Inr res"
    and "200 \<le> status res \<and> status res < 300"
  shows "head pf c path params opts =
           (\<lparr>requests = [(u, requestInit pf HEAD Undefined opts)], console = []\<rparr>,
            Inr (headers res)) \<and>
         perform pf c (Head path params opts) =
           (\<lparr>requests = [(u, requestInit pf HEAD Undefined opts)], console = []\<rparr>,
            Inr (HeaderCollection (headers res))) \<and>
         (\<forall>parser. head (pf\<lparr>JSON_parse := parser\<rparr>) c path params opts =
                    head pf c path params opts)"
proof -
  have "send pf c HEAD path params Undefined opts =
      (\<lparr>requests = [(u, requestInit pf HEAD Undefined opts)], console = []\<rparr>, Inr res)"
    using assms by (simp add: send_def ok_def)
  then have "head pf c path params opts =
      (\<lparr>requests = [(u, requestInit pf HEAD Undefined opts)], console = []\<rparr>, Inr (headers res))"
    by (simp add: head_def)
  moreover have "head (pf\<lparr>JSON_parse := parser\<rparr>) c path params opts =
      head pf c path params opts" for parser
    by (simp add: head_def send_parser)
  ultimately show ?thesis by (simp add: returning_def)
qed

theorem C6_witness:
  "(let res = \<lparr>status = 200, headers = [(''Content-Length'', ''9'')], body = ''not json''\<rparr>;
        c = new_RESTClient examplePlatform (Some exampleBase) None (Some (respondWith res))
    in JSON_parse examplePlatform (body res) = Inl ''Unexpected token'' \<and>
       snd (head examplePlatform c ''./tags'' None None) = Inr [(''Content-Length'', ''9'')])"
proof -
  let ?res = "\<lparr>status = 200, headers = [(''Content-Length'', ''9'')], body = ''not json''\<rparr>"
  let ?c = "new_RESTClient examplePlatform (Some exampleBase) None (Some (respondWith ?res))"
  have u: "requestURL examplePlatform ?c ''./tags'' None = Inr ''https://api.example.com/api/tags''"
    by (simp add: requestURL_def examplePlatform_def new_RESTClient_def exampleBase_def)
  have f: "fetchFn ?c ''https://api.example.com/api/tags''
      (requestInit examplePlatform HEAD Undefined None) = Inr ?res"
    by (simp add: new_RESTClient_def respondWith_def)
  have s: "200 \<le> status ?res \<and> status ?res < 300" by simp
  have p: "JSON_parse examplePlatform (body ?res) = Inl ''Unexpected token''"
    by (simp add: examplePlatform_def exampleCodec_def)
  from C6_head_returns_headers [OF u f s] p show ?thesis
    by (simp add: Let_def)
qed

section \<open>options\<close>


























text \<open>Whitespace before the first token and after the last one is not next to a comma,
  and the split keeps it.\<close>

lemma split_allow_outer_whitespace:
  "split_allow '' GET , POST '' = ['' GET'', ''POST '']"
  by code_simp







section \<open>The request URL\<close>





lemma prefix_drop: "take (length a) t = a \<Longrightarrow> a @ drop (length a) t = t"
  by (metis append_take_drop_id)

lemma hierParts_append:
  assumes "hierParts t = (sch, nl, p)"
  shows "sch @ nl @ p = t"
proof -
  define w where "w = takeWhile isSchemeChar t"
  define sch' where "sch' = (if w \<noteq> [] \<and> isAlpha (hd w) \<and> take 1 (drop (length w) t) = '':''
                 then w @ '':'' else [])"
  define s1 where "s1 = drop (length sch') t"
  define nl' where "nl' = (if take 2 s1 = ''//''
                then ''//'' @ takeWhile (\<lambda>c. c \<noteq> CHR ''/'') (drop 2 s1) else [])"
  have "hierParts t = (sch', nl', drop (length nl') s1)"
    by (simp only: hierParts_def Let_def w_def sch'_def s1_def nl'_def)
  with assms have e: "sch = sch'" "nl = nl'" "p = drop (length nl') s1" by auto
  have w: "take (length w) t = w" unfolding w_def by (simp add: takeWhile_eq_take [symmetric])
  have "take (length sch') t = sch'"
  proof (cases "w \<noteq> [] \<and> isAlpha (hd w) \<and> take 1 (drop (length w) t) = '':''")
    case True
    then have "sch' = w @ '':''" by (simp add: sch'_def)
    moreover have "take (length w + 1) t = take (length w) t @ take 1 (drop (length w) t)"
      by (rule take_add)
    ultimately show ?thesis using True w by simp
  next
    case False
    then show ?thesis by (auto simp: sch'_def)
  qed
  then have 1: "sch' @ s1 = t" unfolding s1_def by (rule prefix_drop)
  have "take (length nl') s1 = nl'"
  proof (cases "take 2 s1 = ''//''")
    case True
    define k where "k = takeWhile (\<lambda>c. c \<noteq> CHR ''/'') (drop 2 s1)"
    have "take (length k) (drop 2 s1) = k" unfolding k_def by (simp add: takeWhile_eq_take [symmetric])
    moreover have "take (2 + length k) s1 = take 2 s1 @ take (length k) (drop 2 s1)"
      by (rule take_add)
    moreover have "nl' = ''//'' @ k" using True by (simp add: nl'_def k_def)
    ultimately show ?thesis using True by simp
  next
    case False
    then show ?thesis by (simp add: nl'_def)
  qed
  then have "nl' @ drop (length nl') s1 = s1" by (rule prefix_drop)
  with 1 e show ?thesis by simp
qed

lemma buildURLFromParts_parseURL: "buildURLFromParts (parseURL s) = s"
proof -
  define h where "h = takeWhile (\<lambda>c. c \<noteq> CHR ''#'') s"
  define pq where "pq = takeWhile (\<lambda>c. c \<noteq> CHR ''?'') h"
  obtain sch nl p where hp: "hierParts pq = (sch, nl, p)" by (cases "hierParts pq") auto
  from hierParts_append [OF hp] have "sch @ nl @ p = pq" .
  moreover have "pq @ dropWhile (\<lambda>c. c \<noteq> CHR ''?'') h = h" unfolding pq_def by simp
  moreover have "h @ dropWhile (\<lambda>c. c \<noteq> CHR ''#'') s = s" unfolding h_def by simp
  ultimately have "sch @ nl @ p @ dropWhile (\<lambda>c. c \<noteq> CHR ''?'') h @ dropWhile (\<lambda>c. c \<noteq> CHR ''#'') s = s"
    by (metis append.assoc)
  then show ?thesis
    using hp by (simp add: buildURLFromParts_def parseURL_def Let_def h_def [symmetric] pq_def [symmetric])
qed





lemma isSchemeChar_simps [simp]:
  "\<not> isSchemeChar (CHR ''/'')" "\<not> isSchemeChar (CHR '':'')" "isSchemeChar (CHR ''.'')" "\<not> isAlpha (CHR ''.'')"
  by code_simp+



























section \<open>The stored options\<close>

lemma deepMergeS_extends:
  "deepMergeS n h a b = Some (h', r) \<Longrightarrow> prefix h h'"
  and mergePropsS_extends:
  "mergePropsS n h pa pb = Some (h', ps) \<Longrightarrow> prefix h h'"
proof (induction n h a b and n h pa pb arbitrary: h' r and h' ps
    rule: deepMergeS_mergePropsS.induct)
  case (2 n h x y)
  from "2.prems" obtain h1 props
    where m: "mergePropsS n h (propsOf h x) (propsOf h y) = Some (h1, props)"
      and h': "h' = h1 @ [props]"
    by (auto simp: alloc_def split: option.splits)
  from "2.IH" [OF m] show ?case by (simp add: h' prefix_prefix)
next
  case (5 n h pa k v pb)
  show ?case
  proof (cases "map_of pa k")
    case None
    with "5.prems" "5.IH"(1) show ?thesis by simp
  next
    case (Some u)
    with "5.prems" obtain h1 w where d: "deepMergeS n h u v = Some (h1, w)"
      and r: "mergePropsS n h1 (AList.update k w pa) pb = Some (h', ps)"
      by (auto split: option.splits)
    from "5.IH"(2) [OF Some d] have "prefix h h1" .
    moreover from "5.IH"(3) [OF Some d refl r] have "prefix h1 h'" .
    ultimately show ?thesis by (rule prefix_order.trans)
  qed
qed simp_all

lemma writeProp_fresh: "length h0 \<le> a \<Longrightarrow> prefix h0 h \<Longrightarrow> prefix h0 (writeProp h a k v)"
  by (auto simp: writeProp_def prefix_def list_update_append)

lemma alloc_extends: "alloc h obj = (h', a) \<Longrightarrow> prefix h h' \<and> a = length h"
  by (auto simp: alloc_def)

lemma preserves_refl: "preserves st st"
  by (simp add: preserves_def)

lemma preserves_trans: "preserves st st1 \<Longrightarrow> preserves st1 st2 \<Longrightarrow> preserves st st2"
  by (auto simp: preserves_def intro: prefix_order.trans)

lemma sendS_preserves: "preserves st (fst (sendS pf st m path params data opts))"
proof -
  let ?h0 = "store st"
  obtain h1 opt where a1: "alloc ?h0 (case opts of None \<Rightarrow> [] | Some a \<Rightarrow> propsOf ?h0 a) = (h1, opt)"
    by (cases "alloc ?h0 (case opts of None \<Rightarrow> [] | Some a \<Rightarrow> propsOf ?h0 a)")
  then have p1: "prefix ?h0 h1" and o: "opt = length ?h0" using alloc_extends by blast+
  define h2 where "h2 = writeProp h1 opt ''method'' (SStr (methodName m))"
  have p2: "prefix ?h0 h2" unfolding h2_def using o p1 by (intro writeProp_fresh) simp_all
  obtain h3 ha where a3: "alloc h2 [(''Content-Type'', SStr ''application/json'')] = (h3, ha)"
    by (cases "alloc h2 [(''Content-Type'', SStr ''application/json'')]")
  then have p3: "prefix ?h0 h3" using alloc_extends p2 by (meson prefix_order.trans)
  have p4: "prefix ?h0 (writeProp (writeProp h4 opt ''headers'' hs) opt ''body'' v)"
    if "deepMergeS (stack st) h3 (readProp h3 opt ''headers'') (SRef ha) = Some (h4, hs)" for h4 hs v
  proof -
    from deepMergeS_extends [OF that] p3 have "prefix ?h0 h4" by (meson prefix_order.trans)
    then show ?thesis using o by (intro writeProp_fresh) simp_all
  qed
  show ?thesis
    using a1 a3 p2 p3 p4
    by (auto simp: preserves_def sendS_def Let_def h2_def split: sum.splits option.splits prod.splits)
qed

lemma andThen_preserves:
  assumes "preserves st (fst r)" and "\<And>st' v. preserves st' (fst (f st' v))"
  shows "preserves st (fst (andThen r f))"
proof (cases r)
  case (Pair st1 out)
  show ?thesis
  proof (cases out)
    case (Returned v)
    from assms(1) Pair have "preserves st st1" by simp
    from preserves_trans [OF this assms(2) [of st1 v]] show ?thesis
      by (simp add: andThen_def Pair Returned)
  qed (use assms(1) Pair in \<open>simp_all add: andThen_def\<close>)
qed

lemma getParsedResponseBodyS_preserves:
  "preserves st (fst (getParsedResponseBodyS pf st m path params data opts))"
  unfolding getParsedResponseBodyS_def
  by (rule andThen_preserves [OF sendS_preserves]) (simp add: preserves_refl)

lemma performS_preserves: "preserves st (fst (performS pf st r))"
proof (cases r)
  case (OptionsS path params data opts)
  show ?thesis
    unfolding OptionsS performS.simps
    by (rule andThen_preserves [OF sendS_preserves])
      (simp add: preserves_def split: option.splits)
qed (simp_all add: andThen_preserves getParsedResponseBodyS_preserves sendS_preserves preserves_refl)

text \<open>
  Claim C9. For every verb call, from every state of the store and of the client, the
  fields of the client are the same after the call (so \<open>defaultOptions\<close> refers to the
  same object), and every object that existed before the call has the properties it had:
  the store after the call is the store before it followed by the objects the call
  allocated. This holds also when the options of the call are the stored object itself.
  A request writes to its own copy \<open>{ ...options }\<close> only; \<open>updateOptions\<close> and \<open>auth\<close>
  assign the field.
\<close>

theorem C9_requests_leave_defaultOptions:
  "this (fst (performS pf st r)) = this st \<and>
   prefix (store st) (store (fst (performS pf st r))) \<and>
   (\<forall>a < length (store st). store (fst (performS pf st r)) ! a = store st ! a)"
proof -
  from performS_preserves [of st pf r]
  have p: "this (fst (performS pf st r)) = this st"
    "prefix (store st) (store (fst (performS pf st r)))" by (simp_all add: preserves_def)
  from p(2) have "\<forall>a < length (store st). store (fst (performS pf st r)) ! a = store st ! a"
    by (auto simp: prefix_def nth_append)
  with p show ?thesis by simp
qed

theorem C9_witness:
  "prefix (store exampleMachine)
     (store (fst (performS examplePlatform exampleMachine
                    (PostS ''./tags'' None exampleUser (Some 2))))) \<and>
   defaultOptionsS (this exampleMachine) = SRef 2 \<and>
   snd (performS examplePlatform exampleMachine (PostS ''./tags'' None exampleUser (Some 2))) =
     Returned (Data exampleTags) \<and>
   defaultOptionsS
     (this (fst (performS examplePlatform exampleMachine
                   (PostS ''./tags'' None exampleUser (Some 2))))) = SRef 2 \<and>
   store exampleMachine =
     [[(''Accept'', SStr ''text/plain'')],
      [(''headers'', SRef 0), (''credentials'', SStr ''omit'')],
      [(''headers'', SRef 0), (''credentials'', SStr ''omit'')]] \<and>
   store (fst (performS examplePlatform exampleMachine
                 (PostS ''./tags'' None exampleUser (Some 2)))) =
     [[(''Accept'', SStr ''text/plain'')],
      [(''headers'', SRef 0), (''credentials'', SStr ''omit'')],
      [(''headers'', SRef 0), (''credentials'', SStr ''omit'')],
      [(''headers'', SRef 5), (''credentials'', SStr ''omit''), (''method'', SStr ''POST''),
       (''body'', SStr ''{\"user\":{\"email\":\"foo@example.com\"}}'')],
      [(''Content-Type'', SStr ''application/json'')],
      [(''Accept'', SStr ''text/plain''), (''Content-Type'', SStr ''application/json'')]] \<and>
   defaultOptionsS (this (fst (authS exampleMachine ''Bearer abc123''))) = SRef 6 \<and>
   propsOf (store (fst (authS exampleMachine ''Bearer abc123''))) 6 =
     [(''headers'', SRef 5), (''credentials'', SStr ''omit'')] \<and>
   take 3 (store (fst (authS exampleMachine ''Bearer abc123''))) = store exampleMachine"
proof -
  from C9_requests_leave_defaultOptions
    [of examplePlatform exampleMachine "PostS ''./tags'' None exampleUser (Some 2)"]
  have "prefix (store exampleMachine)
     (store (fst (performS examplePlatform exampleMachine
                    (PostS ''./tags'' None exampleUser (Some 2)))))"
    by (rule conjunct1 [OF conjunct2])
  moreover have "defaultOptionsS (this exampleMachine) = SRef 2 \<and>
   snd (performS examplePlatform exampleMachine (PostS ''./tags'' None exampleUser (Some 2))) =
     Returned (Data exampleTags) \<and>
   defaultOptionsS
     (this (fst (performS examplePlatform exampleMachine
                   (PostS ''./tags'' None exampleUser (Some 2))))) = SRef 2 \<and>
   store exampleMachine =
     [[(''Accept'', SStr ''text/plain'')],
      [(''headers'', SRef 0), (''credentials'', SStr ''omit'')],
      [(''headers'', SRef 0), (''credentials'', SStr ''omit'')]] \<and>
   store (fst (performS examplePlatform exampleMachine
                 (PostS ''./tags'' None exampleUser (Some 2)))) =
     [[(''Accept'', SStr ''text/plain'')],
      [(''headers'', SRef 0), (''credentials'', SStr ''omit'')],
      [(''headers'', SRef 0), (''credentials'', SStr ''omit'')],
      [(''headers'', SRef 5), (''credentials'', SStr ''omit''), (''method'', SStr ''POST''),
       (''body'', SStr ''{\"user\":{\"email\":\"foo@example.com\"}}'')],
      [(''Content-Type'', SStr ''application/json'')],
      [(''Accept'', SStr ''text/plain''), (''Content-Type'', SStr ''application/json'')]] \<and>
   defaultOptionsS (this (fst (authS exampleMachine ''Bearer abc123''))) = SRef 6 \<and>
   propsOf (store (fst (authS exampleMachine ''Bearer abc123''))) 6 =
     [(''headers'', SRef 5), (''credentials'', SStr ''omit'')] \<and>
   take 3 (store (fst (authS exampleMachine ''Bearer abc123''))) = store exampleMachine"
    by code_simp
  ultimately show ?thesis by (rule conjI)
qed

end
